theory Spec2Isabelle
  imports Main "HOL-Library.Multiset" "HOL-Library.Sublist"
begin

section \<open>The layer store of \<^verbatim>\<open>src/app/page.tsx\<close>\<close>

text \<open>
  The editor keeps its layers in a zustand store. Every operation of the store is a call
  \<^verbatim>\<open>set((state) => ({ ... }))\<close>, which merges the returned fields into the state and
  keeps the others; here an operation takes the state and returns the new one.

  TypeScript's \<^verbatim>\<open>number\<close> is modelled by \<^typ>\<open>int\<close>: ids are \<^verbatim>\<open>Date.now()\<close>
  timestamps, \<^verbatim>\<open>zIndex\<close> values are array lengths and positions, and the geometry is
  only carried around. Fractions, \<^verbatim>\<open>NaN\<close> and the infinities are not modelled.
\<close>

subsection \<open>Data\<close>

datatype layer_type = Image | Text

text \<open>
  \<^verbatim>\<open>interface Layer\<close>. The field \<^verbatim>\<open>id\<close> carries a prime, since \<open>id\<close> is the
  identity function of HOL; \<^verbatim>\<open>content?: string\<close> may be missing.
\<close>

record Layer =
  id' :: int
  type :: layer_type
  src :: string
  name :: string
  width :: int
  height :: int
  x :: int
  y :: int
  zIndex :: int
  content :: "string option"

text \<open>
  \<^verbatim>\<open>Partial<Layer>\<close>: every key of \<^verbatim>\<open>Layer\<close> is either missing (\<open>None\<close>) or present
  with a value of the field's type. A present \<^verbatim>\<open>content\<close> key may hold
  \<^verbatim>\<open>undefined\<close>, which is \<open>Some None\<close>.
\<close>

record Partial_Layer =
  p_id :: "int option"
  p_type :: "layer_type option"
  p_src :: "string option"
  p_name :: "string option"
  p_width :: "int option"
  p_height :: "int option"
  p_x :: "int option"
  p_y :: "int option"
  p_zIndex :: "int option"
  p_content :: "string option option"

text \<open>The data fields of \<^verbatim>\<open>interface EditorState\<close>; its five methods follow below.\<close>

record EditorState =
  layers :: "Layer list"
  selectedLayerId :: "int option"

text \<open>The store as \<^verbatim>\<open>create\<close> builds it: no layers, nothing selected.\<close>

definition initial_state :: EditorState where
  "initial_state = \<lparr>layers = [], selectedLayerId = None\<rparr>"

subsection \<open>Object spread\<close>

text \<open>
  \<^verbatim>\<open>{ ...layer, ...updates }\<close> copies \<^verbatim>\<open>layer\<close> and then assigns every key that is
  present in \<^verbatim>\<open>updates\<close>, in the order of the interface.
\<close>

definition assign :: "'v option \<Rightarrow> ('v \<Rightarrow> Layer \<Rightarrow> Layer) \<Rightarrow> Layer \<Rightarrow> Layer" where
  "assign key put layer = (case key of None \<Rightarrow> layer | Some v \<Rightarrow> put v layer)"

definition spread :: "Layer \<Rightarrow> Partial_Layer \<Rightarrow> Layer" where
  "spread layer updates =
     (assign (p_content updates) (\<lambda>v l. l\<lparr>content := v\<rparr>)
      (assign (p_zIndex updates) (\<lambda>v l. l\<lparr>zIndex := v\<rparr>)
      (assign (p_y updates) (\<lambda>v l. l\<lparr>y := v\<rparr>)
      (assign (p_x updates) (\<lambda>v l. l\<lparr>x := v\<rparr>)
      (assign (p_height updates) (\<lambda>v l. l\<lparr>height := v\<rparr>)
      (assign (p_width updates) (\<lambda>v l. l\<lparr>width := v\<rparr>)
      (assign (p_name updates) (\<lambda>v l. l\<lparr>name := v\<rparr>)
      (assign (p_src updates) (\<lambda>v l. l\<lparr>src := v\<rparr>)
      (assign (p_type updates) (\<lambda>v l. l\<lparr>type := v\<rparr>)
      (assign (p_id updates) (\<lambda>v l. l\<lparr>id' := v\<rparr>) layer))))))))))"

subsection \<open>Array.prototype.splice\<close>

text \<open>
  \<^verbatim>\<open>splice(start, deleteCount, ...items)\<close> as ECMAScript defines it: a negative
  \<^verbatim>\<open>start\<close> counts from the end, the start is clamped to the array, and no more
  elements are deleted than the array holds from there. The result is the pair of the
  removed elements and the array afterwards.
\<close>

definition splice_start :: "int \<Rightarrow> nat \<Rightarrow> nat" where
  "splice_start start len =
     (if start < 0 then nat (max (int len + start) 0) else min (nat start) len)"

definition splice_array :: "int \<Rightarrow> nat \<Rightarrow> 'a list \<Rightarrow> 'a list \<Rightarrow> 'a list \<times> 'a list" where
  "splice_array start deleteCount items xs =
     (let actualStart = splice_start start (length xs);
          actualDeleteCount = min deleteCount (length xs - actualStart)
      in (take actualDeleteCount (drop actualStart xs),
          take actualStart xs @ items @ drop (actualStart + actualDeleteCount) xs))"

subsection \<open>The five operations\<close>

text \<open>
  \<^verbatim>\<open>addLayer\<close>: the new layer, with its \<^verbatim>\<open>zIndex\<close> overwritten by the number of
  layers, goes in front of the others.
\<close>

definition addLayer :: "Layer \<Rightarrow> EditorState \<Rightarrow> EditorState" where
  "addLayer layer state =
     state\<lparr>layers := layer\<lparr>zIndex := int (length (layers state))\<rparr> # layers state\<rparr>"

text \<open>\<^verbatim>\<open>updateLayer\<close>: every layer whose id is the given one is replaced by its spread.\<close>

definition updateLayer :: "int \<Rightarrow> Partial_Layer \<Rightarrow> EditorState \<Rightarrow> EditorState" where
  "updateLayer i updates state =
     state\<lparr>layers := map (\<lambda>layer. if id' layer = i then spread layer updates else layer)
                        (layers state)\<rparr>"

text \<open>\<^verbatim>\<open>selectLayer\<close>: the selection becomes the argument, whatever it is.\<close>

definition selectLayer :: "int option \<Rightarrow> EditorState \<Rightarrow> EditorState" where
  "selectLayer i state = state\<lparr>selectedLayerId := i\<rparr>"

text \<open>
  \<^verbatim>\<open>reorderLayers\<close>: one element is spliced out at \<^verbatim>\<open>startIndex\<close> and spliced in at
  \<^verbatim>\<open>endIndex\<close>, then every layer gets \<^verbatim>\<open>zIndex = length - 1 - index\<close>.

  When the first splice removes nothing (the array is empty, or \<^verbatim>\<open>startIndex\<close> is at or
  beyond its end), \<^verbatim>\<open>reorderedItem\<close> is \<^verbatim>\<open>undefined\<close>; the source does not raise, it
  splices \<^verbatim>\<open>undefined\<close> in and the final \<^verbatim>\<open>map\<close> turns it into an object that holds
  a \<^verbatim>\<open>zIndex\<close> and nothing else. That object is no \<^typ>\<open>Layer\<close>, so the typed
  operation returns \<open>MalformedLayer\<close> there; what the store holds then is modelled
  further down, as the store at run time.
\<close>

datatype store_error = MalformedLayer

definition renumber :: "Layer list \<Rightarrow> Layer list" where
  "renumber newLayers =
     map (\<lambda>(index, layer). layer\<lparr>zIndex := int (length newLayers) - 1 - int index\<rparr>)
         (enumerate 0 newLayers)"

definition reorderLayers :: "int \<Rightarrow> int \<Rightarrow> EditorState \<Rightarrow> store_error + EditorState" where
  "reorderLayers startIndex endIndex state =
     (case splice_array startIndex 1 [] (layers state) of
        ([], _) \<Rightarrow> Inl MalformedLayer
      | (reorderedItem # _, newLayers) \<Rightarrow>
          Inr (state\<lparr>layers := renumber (snd (splice_array endIndex 0 [reorderedItem] newLayers))\<rparr>))"

text \<open>
  \<^verbatim>\<open>deleteSelectedLayer\<close>: keeps the layers with \<^verbatim>\<open>layer.id !== state.selectedLayerId\<close>
  (a number is never \<^verbatim>\<open>null\<close>, so an empty selection keeps them all) and clears the
  selection.
\<close>

definition deleteSelectedLayer :: "EditorState \<Rightarrow> EditorState" where
  "deleteSelectedLayer state =
     \<lparr>layers = filter (\<lambda>layer. Some (id' layer) \<noteq> selectedLayerId state) (layers state),
      selectedLayerId = None\<rparr>"

subsection \<open>The layer a generated image becomes\<close>

text \<open>
  \<^verbatim>\<open>handleSubmit\<close> builds the layer it adds from the time of the call
  (\<^verbatim>\<open>Date.now()\<close>), the address of the generated image and the layers the component was
  rendered with. The name ends in the decimal numeral of their number plus one.
\<close>

fun decimal :: "nat \<Rightarrow> string" where
  "decimal n =
     (if n < 10 then [char_of (48 + n)] else decimal (n div 10) @ [char_of (48 + n mod 10)])"

declare decimal.simps [simp del]

definition newLayer :: "int \<Rightarrow> string \<Rightarrow> Layer list \<Rightarrow> Layer" where
  "newLayer now image_url rendered =
     \<lparr>id' = now, type = Image, src = image_url,
      name = ''Generated Image '' @ decimal (length rendered + 1),
      width = 200, height = 200, x = 0, y = 0,
      zIndex = int (length rendered), content = None\<rparr>"

subsection \<open>Readings of a state\<close>

text \<open>The \<^verbatim>\<open>zIndex\<close> values and the ids of the layers, in list order.\<close>

definition zIndexes :: "EditorState \<Rightarrow> int list" where
  "zIndexes state = map zIndex (layers state)"

definition ids :: "EditorState \<Rightarrow> int list" where
  "ids state = map id' (layers state)"

text \<open>A layer with its \<^verbatim>\<open>zIndex\<close> blanked: what is left are all the other fields.\<close>

definition without_zIndex :: "Layer \<Rightarrow> Layer" where
  "without_zIndex layer = layer\<lparr>zIndex := 0\<rparr>"

subsection \<open>The store at run time\<close>

text \<open>
  The operations above are the store as its types describe it: an array of
  \<^typ>\<open>Layer\<close>. At run time nothing checks the types. When the first splice of
  \<^verbatim>\<open>reorderLayers\<close> removes nothing, \<^verbatim>\<open>reorderedItem\<close> is \<^verbatim>\<open>undefined\<close>, the second
  splice puts \<^verbatim>\<open>undefined\<close> into the array, and the final \<^verbatim>\<open>map\<close> turns it into
  \<^verbatim>\<open>{ zIndex: n }\<close>, an object with no other key. The store keeps that object, and every
  later call works on an array that holds it. So the elements of the array at run time are
  whole layers and such bare objects; inside \<^verbatim>\<open>reorderLayers\<close> an element may also be
  \<^verbatim>\<open>undefined\<close>, which is \<open>None\<close>.
\<close>

datatype element = Whole Layer | Bare int

record Store =
  elements :: "element list"
  selected :: "int option"

definition initial_store :: Store where
  "initial_store = \<lparr>elements = [], selected = None\<rparr>"

text \<open>\<^verbatim>\<open>layer.id\<close> and \<^verbatim>\<open>layer.zIndex\<close>; a bare object has no id.\<close>

fun element_id :: "element \<Rightarrow> int option" where
  "element_id (Whole layer) = Some (id' layer)"
| "element_id (Bare z) = None"

fun element_zIndex :: "element \<Rightarrow> int" where
  "element_zIndex (Whole layer) = zIndex layer"
| "element_zIndex (Bare z) = z"

text \<open>
  \<^verbatim>\<open>{ ...layer, zIndex: n }\<close>, where \<^verbatim>\<open>layer\<close> may be \<^verbatim>\<open>undefined\<close>: spreading
  \<^verbatim>\<open>undefined\<close> copies nothing.
\<close>

fun with_zIndex :: "element option \<Rightarrow> int \<Rightarrow> element" where
  "with_zIndex None n = Bare n"
| "with_zIndex (Some (Whole layer)) n = Whole (layer\<lparr>zIndex := n\<rparr>)"
| "with_zIndex (Some (Bare z)) n = Bare n"

text \<open>
  \<^verbatim>\<open>layer.id === id ? { ...layer, ...updates } : layer\<close>: the id of a bare object is
  \<^verbatim>\<open>undefined\<close>, which is no number, so a bare object is never updated.
\<close>

fun update_element :: "int \<Rightarrow> Partial_Layer \<Rightarrow> element \<Rightarrow> element" where
  "update_element i updates (Whole layer) =
     (if id' layer = i then Whole (spread layer updates) else Whole layer)"
| "update_element i updates (Bare z) = Bare z"

text \<open>
  \<^verbatim>\<open>layer.id !== state.selectedLayerId\<close>: the selection is a number or \<^verbatim>\<open>null\<close>, and
  \<^verbatim>\<open>undefined\<close> is neither, so a bare object is never deleted.
\<close>

fun survives :: "int option \<Rightarrow> element \<Rightarrow> bool" where
  "survives selection (Whole layer) = (Some (id' layer) \<noteq> selection)"
| "survives selection (Bare z) = True"

text \<open>The five operations on the array as it is at run time.\<close>

definition store_addLayer :: "Layer \<Rightarrow> Store \<Rightarrow> Store" where
  "store_addLayer layer state =
     state\<lparr>elements := Whole (layer\<lparr>zIndex := int (length (elements state))\<rparr>)
                          # elements state\<rparr>"

definition store_updateLayer :: "int \<Rightarrow> Partial_Layer \<Rightarrow> Store \<Rightarrow> Store" where
  "store_updateLayer i updates state =
     state\<lparr>elements := map (update_element i updates) (elements state)\<rparr>"

definition store_selectLayer :: "int option \<Rightarrow> Store \<Rightarrow> Store" where
  "store_selectLayer i state = state\<lparr>selected := i\<rparr>"

definition store_reorderLayers :: "int \<Rightarrow> int \<Rightarrow> Store \<Rightarrow> Store" where
  "store_reorderLayers startIndex endIndex state =
     (let (removed, newLayers) = splice_array startIndex 1 [] (elements state);
          reorderedItem = (case removed of [] \<Rightarrow> None | item # _ \<Rightarrow> Some item);
          newLayers = snd (splice_array endIndex 0 [reorderedItem] (map Some newLayers))
      in state\<lparr>elements :=
           map (\<lambda>(index, layer). with_zIndex layer (int (length newLayers) - 1 - int index))
               (enumerate 0 newLayers)\<rparr>)"

definition store_deleteSelectedLayer :: "Store \<Rightarrow> Store" where
  "store_deleteSelectedLayer state =
     \<lparr>elements = filter (survives (selected state)) (elements state), selected = None\<rparr>"

text \<open>A state of the typed store, seen as a state at run time.\<close>

definition at_run_time :: "EditorState \<Rightarrow> Store" where
  "at_run_time state =
     \<lparr>elements = map Whole (layers state), selected = selectedLayerId state\<rparr>"

subsection \<open>Sequences of operations\<close>

text \<open>
  A caller of the store performs one of the five operations at a time. A sequence of calls
  is run from left to right on the store at run time; every call returns, so every
  sequence ends in a state.
\<close>

datatype op =
    AddLayer Layer
  | UpdateLayer int Partial_Layer
  | SelectLayer "int option"
  | ReorderLayers int int
  | DeleteSelectedLayer

fun step :: "op \<Rightarrow> Store \<Rightarrow> Store" where
  "step (AddLayer layer) state = store_addLayer layer state"
| "step (UpdateLayer i updates) state = store_updateLayer i updates state"
| "step (SelectLayer i) state = store_selectLayer i state"
| "step (ReorderLayers startIndex endIndex) state =
     store_reorderLayers startIndex endIndex state"
| "step DeleteSelectedLayer state = store_deleteSelectedLayer state"

fun run :: "op list \<Rightarrow> Store \<Rightarrow> Store" where
  "run [] state = state"
| "run (c # cs) state = run cs (step c state)"

text \<open>The ids and the \<^verbatim>\<open>zIndex\<close> values in the array, in list order.\<close>

definition element_ids :: "Store \<Rightarrow> int option list" where
  "element_ids state = map element_id (elements state)"

definition element_zIndexes :: "Store \<Rightarrow> int list" where
  "element_zIndexes state = map element_zIndex (elements state)"

text \<open>The selection is \<^verbatim>\<open>null\<close> or the id of a layer in the array.\<close>

definition selection_present :: "Store \<Rightarrow> bool" where
  "selection_present state =
     (case selected state of None \<Rightarrow> True | Some i \<Rightarrow> Some i \<in> set (element_ids state))"

text \<open>
  A call that cannot leave the selection dangling: \<^verbatim>\<open>selectLayer\<close> is given
  \<^verbatim>\<open>null\<close> or the id of a layer in the array, and \<^verbatim>\<open>updateLayer\<close> does not name
  \<^verbatim>\<open>id\<close> in its patch. A sequence of calls is checked call by call, each in the state it
  is made in.
\<close>

fun selects_present :: "op \<Rightarrow> Store \<Rightarrow> bool" where
  "selects_present (SelectLayer (Some i)) state = (Some i \<in> set (element_ids state))"
| "selects_present (UpdateLayer i updates) state = (p_id updates = None)"
| "selects_present c state = True"

fun all_select_present :: "op list \<Rightarrow> Store \<Rightarrow> bool" where
  "all_select_present [] state = True"
| "all_select_present (c # cs) state =
     (selects_present c state \<and> all_select_present cs (step c state))"

section \<open>The generation relay of \<^verbatim>\<open>src/app/api/generate-image/route.ts\<close>\<close>

text \<open>
  The handler reads the request body, reads the key from the environment, and either
  answers at once or calls the provider once. The outbound calls are a list the handler
  returns beside its answer; the provider is a function from the call to what
  \<^verbatim>\<open>fetch\<close> followed by \<^verbatim>\<open>response.json()\<close> gives. A promise that rejects is an
  \<open>Inl\<close>.
\<close>

datatype json =
    JNull
  | JBool bool
  | JNumber int
  | JString string
  | JArray "json list"
  | JObject "(string \<times> json) list"

datatype js_error = SyntaxError | TypeError | FetchError

text \<open>
  Reading a property while destructuring, \<^verbatim>\<open>const { prompt, size } = value\<close>:
  \<^verbatim>\<open>null\<close> cannot be destructured, an object gives the property or \<^verbatim>\<open>undefined\<close>
  (\<open>None\<close>), and the other JSON values have neither a \<^verbatim>\<open>prompt\<close> nor a \<^verbatim>\<open>size\<close>.
\<close>

fun property :: "json \<Rightarrow> string \<Rightarrow> js_error + json option" where
  "property JNull key = Inl TypeError"
| "property (JObject members) key = Inr (map_of members key)"
| "property v key = Inr None"

text \<open>\<^verbatim>\<open>JSON.stringify\<close> leaves out a property whose value is \<^verbatim>\<open>undefined\<close>.\<close>

fun stringify_member :: "string \<Rightarrow> json option \<Rightarrow> (string \<times> json) list" where
  "stringify_member key None = []"
| "stringify_member key (Some v) = [(key, v)]"

record fetch_call =
  url :: string
  method' :: string
  headers :: "(string \<times> string) list"
  body :: json

record response =
  status :: nat
  payload :: json

definition key_not_found :: response where
  "key_not_found =
     \<lparr>status = 500, payload = JObject [(''error'', JString ''API key not found'')]\<rparr>"

text \<open>
  \<^verbatim>\<open>POST\<close>. \<open>apiKey\<close> is \<^verbatim>\<open>process.env.FAL_AI_API_KEY\<close>, missing or a string;
  \<^verbatim>\<open>!apiKey\<close> holds when it is missing and when it is the empty string.
  \<open>request_json\<close> is what \<^verbatim>\<open>await request.json()\<close> gives. The result is the list of
  outbound calls and the answer, or the error the handler rejects with.
\<close>

definition POST ::
  "string option \<Rightarrow> js_error + json \<Rightarrow> (fetch_call \<Rightarrow> js_error + json)
   \<Rightarrow> fetch_call list \<times> (js_error + response)" where
  "POST apiKey request_json provider =
     (case request_json of
        Inl e \<Rightarrow> ([], Inl e)
      | Inr v \<Rightarrow>
          (case property v ''prompt'' of
             Inl e \<Rightarrow> ([], Inl e)
           | Inr prompt \<Rightarrow>
               (case property v ''size'' of
                  Inl e \<Rightarrow> ([], Inl e)
                | Inr size' \<Rightarrow>
                    (case apiKey of
                       None \<Rightarrow> ([], Inr key_not_found)
                     | Some k \<Rightarrow>
                         if k = [] then ([], Inr key_not_found)
                         else
                           (let call =
                                  \<lparr>url = ''https://fal.run/fal-ai/fast-lightning-sdxl'',
                                   method' = ''POST'',
                                   headers = [(''Content-Type'', ''application/json''),
                                              (''Authorization'', ''Key '' @ k)],
                                   body = JObject (stringify_member ''prompt'' prompt
                                                   @ stringify_member ''image_size'' size')\<rparr>
                            in ([call],
                                case provider call of
                                  Inl e \<Rightarrow> Inl e
                                | Inr data \<Rightarrow> Inr \<lparr>status = 200, payload = data\<rparr>))))))"

section \<open>Properties of the layer store\<close>

subsection \<open>Splicing and renumbering\<close>

lemma splice_remove_one:
  "i < length xs \<Longrightarrow> splice_array (int i) 1 [] xs = ([xs ! i], take i xs @ drop (Suc i) xs)"
  by (simp add: splice_array_def splice_start_def Let_def min_def take_Suc_conv_app_nth
      Cons_nth_drop_Suc [symmetric])

lemma splice_insert_one:
  "j \<le> length ys \<Longrightarrow> snd (splice_array (int j) 0 [a] ys) = take j ys @ a # drop j ys"
  by (simp add: splice_array_def splice_start_def Let_def min_def)

lemma length_renumber: "length (renumber xs) = length xs"
  by (simp add: renumber_def)

lemma nth_renumber:
  "k < length xs \<Longrightarrow> renumber xs ! k = (xs ! k)\<lparr>zIndex := int (length xs) - 1 - int k\<rparr>"
  by (simp add: renumber_def nth_enumerate_eq)

lemma reorderLayers_in_range:
  assumes "i < length (layers s)" "j < length (layers s)"
  shows "reorderLayers (int i) (int j) s =
    Inr (s\<lparr>layers := renumber (take j (take i (layers s) @ drop (Suc i) (layers s))
          @ layers s ! i # drop j (take i (layers s) @ drop (Suc i) (layers s)))\<rparr>)"
proof -
  let ?rest = "take i (layers s) @ drop (Suc i) (layers s)"
  from assms have "j \<le> length ?rest" by simp
  then have "snd (splice_array (int j) 0 [layers s ! i] ?rest)
      = take j ?rest @ layers s ! i # drop j ?rest"
    by (rule splice_insert_one)
  moreover from assms(1)
  have "splice_array (int i) 1 [] (layers s) = ([layers s ! i], ?rest)"
    by (rule splice_remove_one)
  ultimately show ?thesis
    by (simp only: reorderLayers_def prod.case list.case)
qed

lemma mset_insert_at: "mset (take j rest @ a # drop j rest) = add_mset a (mset rest)"
proof -
  have "mset (take j rest @ a # drop j rest) = add_mset a (mset (take j rest) + mset (drop j rest))"
    by simp
  also have "mset (take j rest) + mset (drop j rest) = mset (take j rest @ drop j rest)"
    by (simp only: mset_append)
  also have "take j rest @ drop j rest = rest" by (rule append_take_drop_id)
  finally show ?thesis .
qed

lemma mset_remove_at:
  assumes "i < length xs"
  shows "add_mset (xs ! i) (mset (take i xs @ drop (Suc i) xs)) = mset xs"
proof -
  have "add_mset (xs ! i) (mset (take i xs @ drop (Suc i) xs))
      = mset (take i xs @ xs ! i # drop (Suc i) xs)" by simp
  also from assms have "take i xs @ xs ! i # drop (Suc i) xs = xs"
    by (rule id_take_nth_drop [symmetric])
  finally show ?thesis .
qed

lemma mset_move:
  assumes "i < length xs"
  shows "mset (take j (take i xs @ drop (Suc i) xs) @ xs ! i # drop j (take i xs @ drop (Suc i) xs))
    = mset xs"
  by (simp only: mset_insert_at mset_remove_at [OF assms])

lemma insert_at_facts:
  assumes "j \<le> length rest"
  shows "(take j rest @ a # drop j rest) ! j = a"
    and "take j (take j rest @ a # drop j rest) = take j rest"
    and "drop (Suc j) (take j rest @ a # drop j rest) = drop j rest"
    and "length (take j rest @ a # drop j rest) = Suc (length rest)"
proof -
  from assms have lj: "length (take j rest) = j" by simp
  show "(take j rest @ a # drop j rest) ! j = a"
    using lj by (metis nth_append_length)
  show "take j (take j rest @ a # drop j rest) = take j rest"
    using lj by (metis append_eq_conv_conj)
  have "drop j (take j rest @ a # drop j rest) = a # drop j rest"
    using lj by (metis append_eq_conv_conj)
  then show "drop (Suc j) (take j rest @ a # drop j rest) = drop j rest"
    by (metis drop_Suc list.sel(3) tl_drop)
  show "length (take j rest @ a # drop j rest) = Suc (length rest)"
    using assms by simp
qed

lemma ids_renumber: "map id' (renumber xs) = map id' xs"
  by (rule nth_equalityI) (simp_all add: length_renumber nth_renumber)

lemma without_zIndex_renumber: "map without_zIndex (renumber xs) = map without_zIndex xs"
  by (rule nth_equalityI) (simp_all add: length_renumber nth_renumber without_zIndex_def)

subsection \<open>addLayer\<close>

text \<open>
  C3. \<^verbatim>\<open>addLayer(L)\<close> puts \<open>L\<close> at position 0 with \<^verbatim>\<open>zIndex\<close> set to the number of
  layers there were, keeps every earlier layer as it was, one position further down, and
  so makes the list one longer. This holds for every layer, whether or not its id is new.
\<close>

theorem addLayer_front:
  "layers (addLayer L s) ! 0 = L\<lparr>zIndex := int (length (layers s))\<rparr>
   \<and> zIndex (layers (addLayer L s) ! 0) = int (length (layers s))
   \<and> tl (layers (addLayer L s)) = layers s
   \<and> length (layers (addLayer L s)) = length (layers s) + 1
   \<and> selectedLayerId (addLayer L s) = selectedLayerId s"
  by (simp add: addLayer_def)

subsection \<open>updateLayer\<close>

lemma assign_other:
  assumes "\<And>v l. f (put v l) = f l"
  shows "f (assign k put layer) = f layer"
  using assms by (cases k) (simp_all add: assign_def)

lemma assign_same:
  assumes "\<And>v l. f (put v l) = v"
  shows "f (assign k put layer) = (case k of None \<Rightarrow> f layer | Some v \<Rightarrow> v)"
  using assms by (cases k) (simp_all add: assign_def)

lemma spread_id:
  "id' (spread l p) = (case p_id p of None \<Rightarrow> id' l | Some v \<Rightarrow> v)"
  unfolding spread_def
  by (simp add: assign_other [where f = id'] assign_same [where f = id'] split: option.split)

lemma spread_type:
  "type (spread l p) = (case p_type p of None \<Rightarrow> type l | Some v \<Rightarrow> v)"
  unfolding spread_def
  by (simp add: assign_other [where f = type] assign_same [where f = type] split: option.split)

lemma spread_src:
  "src (spread l p) = (case p_src p of None \<Rightarrow> src l | Some v \<Rightarrow> v)"
  unfolding spread_def
  by (simp add: assign_other [where f = src] assign_same [where f = src] split: option.split)

lemma spread_name:
  "name (spread l p) = (case p_name p of None \<Rightarrow> name l | Some v \<Rightarrow> v)"
  unfolding spread_def
  by (simp add: assign_other [where f = name] assign_same [where f = name] split: option.split)

lemma spread_width:
  "width (spread l p) = (case p_width p of None \<Rightarrow> width l | Some v \<Rightarrow> v)"
  unfolding spread_def
  by (simp add: assign_other [where f = width] assign_same [where f = width] split: option.split)

lemma spread_height:
  "height (spread l p) = (case p_height p of None \<Rightarrow> height l | Some v \<Rightarrow> v)"
  unfolding spread_def
  by (simp add: assign_other [where f = height] assign_same [where f = height] split: option.split)

lemma spread_x:
  "x (spread l p) = (case p_x p of None \<Rightarrow> x l | Some v \<Rightarrow> v)"
  unfolding spread_def
  by (simp add: assign_other [where f = x] assign_same [where f = x] split: option.split)

lemma spread_y:
  "y (spread l p) = (case p_y p of None \<Rightarrow> y l | Some v \<Rightarrow> v)"
  unfolding spread_def
  by (simp add: assign_other [where f = y] assign_same [where f = y] split: option.split)

lemma spread_zIndex:
  "zIndex (spread l p) = (case p_zIndex p of None \<Rightarrow> zIndex l | Some v \<Rightarrow> v)"
  unfolding spread_def
  by (simp add: assign_other [where f = zIndex] assign_same [where f = zIndex] split: option.split)

lemma spread_content:
  "content (spread l p) = (case p_content p of None \<Rightarrow> content l | Some v \<Rightarrow> v)"
  unfolding spread_def
  by (simp add: assign_other [where f = content] assign_same [where f = content] split: option.split)

text \<open>
  C5. When some layer has the given id, \<^verbatim>\<open>updateLayer(id, patch)\<close> keeps the selection
  and the number of layers; at every position the layer is the one that was there, spread
  with the patch when its id is the given one and untouched otherwise, so the order is
  kept and the layers with another id are unchanged. A layer with the given id exists, and
  it is the only one when the ids are pairwise distinct. The spread changes only the fields
  the patch names: a field whose key is missing keeps its value, a field whose key is
  present takes the value of the patch.
\<close>

theorem updateLayer_isolation:
  assumes "i \<in> set (ids s)"
  shows "selectedLayerId (updateLayer i p s) = selectedLayerId s
   \<and> length (layers (updateLayer i p s)) = length (layers s)
   \<and> (\<forall>k < length (layers s).
         layers (updateLayer i p s) ! k =
           (if id' (layers s ! k) = i then spread (layers s ! k) p else layers s ! k))
   \<and> (\<exists>k < length (layers s). id' (layers s ! k) = i)
   \<and> (distinct (ids s) \<longrightarrow> (\<exists>!k. k < length (layers s) \<and> id' (layers s ! k) = i))
   \<and> (\<forall>l. id' (spread l p) = (case p_id p of None \<Rightarrow> id' l | Some v \<Rightarrow> v)
         \<and> type (spread l p) = (case p_type p of None \<Rightarrow> type l | Some v \<Rightarrow> v)
         \<and> src (spread l p) = (case p_src p of None \<Rightarrow> src l | Some v \<Rightarrow> v)
         \<and> name (spread l p) = (case p_name p of None \<Rightarrow> name l | Some v \<Rightarrow> v)
         \<and> width (spread l p) = (case p_width p of None \<Rightarrow> width l | Some v \<Rightarrow> v)
         \<and> height (spread l p) = (case p_height p of None \<Rightarrow> height l | Some v \<Rightarrow> v)
         \<and> x (spread l p) = (case p_x p of None \<Rightarrow> x l | Some v \<Rightarrow> v)
         \<and> y (spread l p) = (case p_y p of None \<Rightarrow> y l | Some v \<Rightarrow> v)
         \<and> zIndex (spread l p) = (case p_zIndex p of None \<Rightarrow> zIndex l | Some v \<Rightarrow> v)
         \<and> content (spread l p) = (case p_content p of None \<Rightarrow> content l | Some v \<Rightarrow> v))"
proof -
  have sel: "selectedLayerId (updateLayer i p s) = selectedLayerId s"
    by (simp add: updateLayer_def)
  have len: "length (layers (updateLayer i p s)) = length (layers s)"
    by (simp add: updateLayer_def)
  have pos: "\<forall>k < length (layers s).
         layers (updateLayer i p s) ! k =
           (if id' (layers s ! k) = i then spread (layers s ! k) p else layers s ! k)"
    by (simp add: updateLayer_def)
  from assms obtain k where k: "k < length (layers s)" "id' (layers s ! k) = i"
    unfolding ids_def by (metis in_set_conv_nth length_map nth_map)
  then have ex: "\<exists>k < length (layers s). id' (layers s ! k) = i" by blast
  have one: "\<exists>!k. k < length (layers s) \<and> id' (layers s ! k) = i" if d: "distinct (ids s)"
  proof (rule ex1I [of _ k])
    show "k < length (layers s) \<and> id' (layers s ! k) = i" using k by simp
  next
    fix m assume m: "m < length (layers s) \<and> id' (layers s ! m) = i"
    with k have "ids s ! m = ids s ! k" by (simp add: ids_def)
    moreover from m k have "m < length (ids s)" "k < length (ids s)" by (simp_all add: ids_def)
    ultimately show "m = k" using d by (simp add: nth_eq_iff_index_eq)
  qed
  have fields: "\<forall>l. id' (spread l p) = (case p_id p of None \<Rightarrow> id' l | Some v \<Rightarrow> v)
         \<and> type (spread l p) = (case p_type p of None \<Rightarrow> type l | Some v \<Rightarrow> v)
         \<and> src (spread l p) = (case p_src p of None \<Rightarrow> src l | Some v \<Rightarrow> v)
         \<and> name (spread l p) = (case p_name p of None \<Rightarrow> name l | Some v \<Rightarrow> v)
         \<and> width (spread l p) = (case p_width p of None \<Rightarrow> width l | Some v \<Rightarrow> v)
         \<and> height (spread l p) = (case p_height p of None \<Rightarrow> height l | Some v \<Rightarrow> v)
         \<and> x (spread l p) = (case p_x p of None \<Rightarrow> x l | Some v \<Rightarrow> v)
         \<and> y (spread l p) = (case p_y p of None \<Rightarrow> y l | Some v \<Rightarrow> v)
         \<and> zIndex (spread l p) = (case p_zIndex p of None \<Rightarrow> zIndex l | Some v \<Rightarrow> v)
         \<and> content (spread l p) = (case p_content p of None \<Rightarrow> content l | Some v \<Rightarrow> v)"
    by (simp only: spread_id spread_type spread_src spread_name spread_width spread_height
        spread_x spread_y spread_zIndex spread_content simp_thms)
  from sel len pos ex one fields show ?thesis by (intro conjI impI)
qed

theorem updateLayer_isolation_witness:
  "1 \<in> set (ids (addLayer (newLayer 2 ''b'' []) (addLayer (newLayer 1 ''a'' []) initial_state)))
   \<and> x (layers (updateLayer 1
        \<lparr>p_id = None, p_type = None, p_src = None, p_name = None, p_width = None,
         p_height = None, p_x = Some 10, p_y = None, p_zIndex = None, p_content = None\<rparr>
        (addLayer (newLayer 2 ''b'' []) (addLayer (newLayer 1 ''a'' []) initial_state))) ! 1) = 10
   \<and> layers (updateLayer 1
        \<lparr>p_id = None, p_type = None, p_src = None, p_name = None, p_width = None,
         p_height = None, p_x = Some 10, p_y = None, p_zIndex = None, p_content = None\<rparr>
        (addLayer (newLayer 2 ''b'' []) (addLayer (newLayer 1 ''a'' []) initial_state))) ! 0
      = layers (addLayer (newLayer 2 ''b'' []) (addLayer (newLayer 1 ''a'' []) initial_state)) ! 0"
proof -
  let ?s = "addLayer (newLayer 2 ''b'' []) (addLayer (newLayer 1 ''a'' []) initial_state)"
  let ?p = "\<lparr>p_id = None, p_type = None, p_src = None, p_name = None, p_width = None,
         p_height = None, p_x = Some 10, p_y = None, p_zIndex = None, p_content = None\<rparr>"
  have h: "1 \<in> set (ids ?s)"
    by (simp add: ids_def addLayer_def newLayer_def initial_state_def)
  have n: "length (layers ?s) = 2" by (simp add: addLayer_def initial_state_def)
  have i0: "id' (layers ?s ! 0) = 2" and i1: "id' (layers ?s ! 1) = 1"
    by (simp_all add: addLayer_def newLayer_def initial_state_def)
  note u = updateLayer_isolation [OF h, of ?p]
  from u n have a0: "layers (updateLayer 1 ?p ?s) ! 0 = layers ?s ! 0"
    using i0 by simp
  from u n have "layers (updateLayer 1 ?p ?s) ! 1 = spread (layers ?s ! 1) ?p"
    using i1 by simp
  moreover from u have "x (spread (layers ?s ! 1) ?p) = 10" by simp
  ultimately have a1: "x (layers (updateLayer 1 ?p ?s) ! 1) = 10" by simp
  from h a0 a1 show ?thesis by blast
qed

text \<open>
  C7. When no layer has the given id, \<^verbatim>\<open>updateLayer\<close> returns the state it was given:
  the layers and the selection are the same. The operation has no failing branch.
\<close>

theorem updateLayer_missing_id:
  assumes "i \<notin> set (ids s)"
  shows "updateLayer i p s = s"
proof -
  have "map (\<lambda>layer. if id' layer = i then spread layer p else layer) (layers s) = layers s"
    using assms by (intro map_idI) (auto simp: ids_def)
  then show ?thesis by (simp add: updateLayer_def)
qed

theorem updateLayer_missing_id_witness:
  "7 \<notin> set (ids (addLayer (newLayer 1 ''a'' []) initial_state))
   \<and> updateLayer 7 \<lparr>p_id = None, p_type = None, p_src = None, p_name = None,
        p_width = None, p_height = None, p_x = Some 10, p_y = None, p_zIndex = None,
        p_content = None\<rparr> (addLayer (newLayer 1 ''a'' []) initial_state)
      = addLayer (newLayer 1 ''a'' []) initial_state"
proof -
  have h: "7 \<notin> set (ids (addLayer (newLayer 1 ''a'' []) initial_state))"
    by (simp add: ids_def addLayer_def newLayer_def initial_state_def)
  from h updateLayer_missing_id [OF h] show ?thesis by simp
qed

subsection \<open>reorderLayers\<close>

text \<open>
  C2. In a list of \<open>N\<close> layers, with \<open>i\<close> and \<open>j\<close> below \<open>N\<close>,
  \<^verbatim>\<open>reorderLayers(i, j)\<close> stores a list of \<open>N\<close> layers again. The layer that was at
  position \<open>i\<close> is at position \<open>j\<close>; the others follow each other as before (the new list
  without position \<open>j\<close> is the old list without position \<open>i\<close>, \<^verbatim>\<open>zIndex\<close> aside); and the
  layer at every position \<open>k\<close> below \<open>N\<close> has \<^verbatim>\<open>zIndex\<close> \<open>N - 1 - k\<close>.
\<close>

theorem reorderLayers_inverse_rank:
  assumes "i < length (layers s)" and "j < length (layers s)"
  shows "\<exists>s'. reorderLayers (int i) (int j) s = Inr s'
    \<and> length (layers s') = length (layers s)
    \<and> without_zIndex (layers s' ! j) = without_zIndex (layers s ! i)
    \<and> map without_zIndex (take j (layers s') @ drop (Suc j) (layers s'))
        = map without_zIndex (take i (layers s) @ drop (Suc i) (layers s))
    \<and> (\<forall>k < length (layers s).
          zIndex (layers s' ! k) = int (length (layers s)) - 1 - int k)"
proof -
  define rest where "rest = take i (layers s) @ drop (Suc i) (layers s)"
  define moved where "moved = take j rest @ layers s ! i # drop j rest"
  define s' where "s' = s\<lparr>layers := renumber moved\<rparr>"
  from assms have lr: "Suc (length rest) = length (layers s)"
    by (simp add: rest_def)
  with assms(2) have jr: "j \<le> length rest" by simp
  note facts = insert_at_facts [OF jr, of "layers s ! i", folded moved_def]
  have len: "length moved = length (layers s)"
    using facts(4) lr by simp
  have run: "reorderLayers (int i) (int j) s = Inr s'"
    unfolding s'_def moved_def rest_def using assms by (rule reorderLayers_in_range)
  have lay: "layers s' = renumber moved" by (simp add: s'_def)
  have l': "length (layers s') = length (layers s)"
    by (simp add: lay length_renumber len)
  have wz: "map without_zIndex (layers s') = map without_zIndex moved"
    by (simp only: lay without_zIndex_renumber)
  have "without_zIndex (layers s' ! j) = map without_zIndex (layers s') ! j"
    using assms(2) l' by simp
  also have "\<dots> = without_zIndex (moved ! j)"
    using assms(2) len by (simp only: wz nth_map)
  finally have moved_j: "without_zIndex (layers s' ! j) = without_zIndex (layers s ! i)"
    by (simp only: facts(1))
  have "map without_zIndex (take j (layers s') @ drop (Suc j) (layers s'))
      = take j (map without_zIndex (layers s')) @ drop (Suc j) (map without_zIndex (layers s'))"
    by (simp only: take_map drop_map map_append)
  also have "\<dots> = map without_zIndex (take j moved @ drop (Suc j) moved)"
    by (simp only: wz take_map drop_map map_append)
  also have "\<dots> = map without_zIndex rest"
    by (simp only: facts(2,3) append_take_drop_id)
  finally have others: "map without_zIndex (take j (layers s') @ drop (Suc j) (layers s'))
      = map without_zIndex (take i (layers s) @ drop (Suc i) (layers s))"
    by (simp only: rest_def)
  have ranks: "\<forall>k < length (layers s).
      zIndex (layers s' ! k) = int (length (layers s)) - 1 - int k"
    by (simp add: lay nth_renumber len)
  from run l' moved_j others ranks show ?thesis by blast
qed

theorem reorderLayers_inverse_rank_witness:
  "(1::nat) < length (layers (addLayer (newLayer 2 ''b'' []) (addLayer (newLayer 1 ''a'' []) initial_state)))
   \<and> (0::nat) < length (layers (addLayer (newLayer 2 ''b'' []) (addLayer (newLayer 1 ''a'' []) initial_state)))
   \<and> (\<exists>s'. reorderLayers 1 0 (addLayer (newLayer 2 ''b'' []) (addLayer (newLayer 1 ''a'' []) initial_state)) = Inr s'
        \<and> length (layers s') = 2
        \<and> zIndex (layers s' ! 0) = 1 \<and> zIndex (layers s' ! 1) = 0)"
proof -
  let ?s = "addLayer (newLayer 2 ''b'' []) (addLayer (newLayer 1 ''a'' []) initial_state)"
  have n: "length (layers ?s) = 2" by (simp add: addLayer_def initial_state_def)
  have h1: "(1::nat) < length (layers ?s)" and h0: "(0::nat) < length (layers ?s)"
    by (simp_all add: n)
  from reorderLayers_inverse_rank [OF h1 h0] n h1 h0 show ?thesis
    by auto
qed

text \<open>
  C10. With \<open>i\<close> and \<open>j\<close> below the number of layers, \<^verbatim>\<open>reorderLayers(i, j)\<close> keeps the
  multiset of ids, keeps the multiset of layers up to their \<^verbatim>\<open>zIndex\<close> (so no layer is
  made, doubled or lost, and no other field changes), and keeps the selection.
\<close>

theorem reorderLayers_frame:
  assumes "i < length (layers s)" and "j < length (layers s)"
  shows "\<exists>s'. reorderLayers (int i) (int j) s = Inr s'
    \<and> mset (ids s') = mset (ids s)
    \<and> mset (map without_zIndex (layers s')) = mset (map without_zIndex (layers s))
    \<and> selectedLayerId s' = selectedLayerId s"
proof -
  define moved where "moved = take j (take i (layers s) @ drop (Suc i) (layers s))
      @ layers s ! i # drop j (take i (layers s) @ drop (Suc i) (layers s))"
  define s' where "s' = s\<lparr>layers := renumber moved\<rparr>"
  have run: "reorderLayers (int i) (int j) s = Inr s'"
    unfolding s'_def moved_def using assms by (rule reorderLayers_in_range)
  have m: "mset moved = mset (layers s)"
    unfolding moved_def using assms(1) by (rule mset_move)
  have lay: "layers s' = renumber moved" by (simp add: s'_def)
  have "mset (ids s') = mset (map id' moved)"
    by (simp only: ids_def lay ids_renumber)
  also have "\<dots> = mset (ids s)" by (simp only: ids_def mset_map m)
  finally have a: "mset (ids s') = mset (ids s)" .
  have "mset (map without_zIndex (layers s')) = mset (map without_zIndex moved)"
    by (simp only: lay without_zIndex_renumber)
  also have "\<dots> = mset (map without_zIndex (layers s))" by (simp only: mset_map m)
  finally have b: "mset (map without_zIndex (layers s')) = mset (map without_zIndex (layers s))" .
  have c: "selectedLayerId s' = selectedLayerId s" by (simp add: s'_def)
  from run a b c show ?thesis by blast
qed

theorem reorderLayers_frame_witness:
  "(1::nat) < length (layers (addLayer (newLayer 2 ''b'' []) (addLayer (newLayer 1 ''a'' []) initial_state)))
   \<and> (0::nat) < length (layers (addLayer (newLayer 2 ''b'' []) (addLayer (newLayer 1 ''a'' []) initial_state)))
   \<and> (\<exists>s'. reorderLayers 1 0 (addLayer (newLayer 2 ''b'' []) (addLayer (newLayer 1 ''a'' []) initial_state)) = Inr s'
        \<and> mset (ids s') = {#1, 2#} \<and> selectedLayerId s' = None)"
proof -
  let ?s = "addLayer (newLayer 2 ''b'' []) (addLayer (newLayer 1 ''a'' []) initial_state)"
  have n: "length (layers ?s) = 2" by (simp add: addLayer_def initial_state_def)
  have h1: "(1::nat) < length (layers ?s)" and h0: "(0::nat) < length (layers ?s)"
    by (simp_all add: n)
  have i: "mset (ids ?s) = {#1, 2#}" and sel: "selectedLayerId ?s = None"
    by (simp_all add: ids_def addLayer_def newLayer_def initial_state_def)
  from reorderLayers_frame [OF h1 h0] h1 h0 show ?thesis
    unfolding i sel by auto
qed

subsection \<open>deleteSelectedLayer\<close>

lemma filter_remove_nth:
  assumes "distinct (map f xs)" and "k < length xs"
  shows "filter (\<lambda>a. f a \<noteq> f (xs ! k)) xs = take k xs @ drop (Suc k) xs"
proof -
  from assms(2) have xs: "xs = take k xs @ xs ! k # drop (Suc k) xs"
    by (rule id_take_nth_drop)
  with assms(1) have d: "distinct (map f (take k xs) @ f (xs ! k) # map f (drop (Suc k) xs))"
    by (metis list.simps(9) map_append)
  then have "f (xs ! k) \<notin> f ` set (take k xs)"
    and "f (xs ! k) \<notin> f ` set (drop (Suc k) xs)"
    by auto
  then have a: "\<forall>a \<in> set (take k xs). f a \<noteq> f (xs ! k)"
    and b: "\<forall>a \<in> set (drop (Suc k) xs). f a \<noteq> f (xs ! k)"
    by (metis imageI)+
  have "filter (\<lambda>a. f a \<noteq> f (xs ! k)) xs
      = filter (\<lambda>a. f a \<noteq> f (xs ! k)) (take k xs @ xs ! k # drop (Suc k) xs)"
    using xs by simp
  also have "\<dots> = filter (\<lambda>a. f a \<noteq> f (xs ! k)) (take k xs)
      @ filter (\<lambda>a. f a \<noteq> f (xs ! k)) (drop (Suc k) xs)"
    by simp
  also have "\<dots> = take k xs @ drop (Suc k) xs"
    using a b by (simp only: filter_True)
  finally show ?thesis .
qed

lemma count_list_filter:
  "P a \<Longrightarrow> count_list (filter P xs) a = count_list xs a"
  by (induction xs) auto

text \<open>
  C4. After \<^verbatim>\<open>deleteSelectedLayer\<close> the selection is \<^verbatim>\<open>null\<close>. With an empty
  selection, or with a selected id that no layer has, the layers are the same. With a
  selected id \<open>i\<close>, no layer with id \<open>i\<close> is left, and the layers before the call are the
  layers after it together with those whose id is \<open>i\<close>; when the ids are pairwise distinct
  and the layer at position \<open>k\<close> has id \<open>i\<close>, exactly position \<open>k\<close> is taken out.
\<close>

theorem deleteSelectedLayer_removes_selected:
  "selectedLayerId (deleteSelectedLayer s) = None
   \<and> (selectedLayerId s = None \<longrightarrow> layers (deleteSelectedLayer s) = layers s)
   \<and> (\<forall>i. selectedLayerId s = Some i \<longrightarrow>
         (i \<notin> set (ids s) \<longrightarrow> layers (deleteSelectedLayer s) = layers s)
         \<and> i \<notin> set (ids (deleteSelectedLayer s))
         \<and> mset (layers s) = mset (layers (deleteSelectedLayer s))
              + mset (filter (\<lambda>layer. id' layer = i) (layers s))
         \<and> (\<forall>k < length (layers s). distinct (ids s) \<longrightarrow> id' (layers s ! k) = i \<longrightarrow>
               layers (deleteSelectedLayer s) = take k (layers s) @ drop (Suc k) (layers s)))"
proof -
  have clear: "selectedLayerId (deleteSelectedLayer s) = None"
    by (simp add: deleteSelectedLayer_def)
  have none: "selectedLayerId s = None \<longrightarrow> layers (deleteSelectedLayer s) = layers s"
    by (simp add: deleteSelectedLayer_def)
  have some: "(i \<notin> set (ids s) \<longrightarrow> layers (deleteSelectedLayer s) = layers s)
         \<and> i \<notin> set (ids (deleteSelectedLayer s))
         \<and> mset (layers s) = mset (layers (deleteSelectedLayer s))
              + mset (filter (\<lambda>layer. id' layer = i) (layers s))
         \<and> (\<forall>k < length (layers s). distinct (ids s) \<longrightarrow> id' (layers s ! k) = i \<longrightarrow>
               layers (deleteSelectedLayer s) = take k (layers s) @ drop (Suc k) (layers s))"
    if sel: "selectedLayerId s = Some i" for i
  proof -
    have lay: "layers (deleteSelectedLayer s) = filter (\<lambda>layer. id' layer \<noteq> i) (layers s)"
      using sel by (simp add: deleteSelectedLayer_def)
    have 1: "i \<notin> set (ids s) \<longrightarrow> layers (deleteSelectedLayer s) = layers s"
      unfolding lay by (auto simp: ids_def intro: filter_True)
    have 2: "i \<notin> set (ids (deleteSelectedLayer s))"
      unfolding ids_def lay by auto
    have 3: "mset (layers s) = mset (layers (deleteSelectedLayer s))
              + mset (filter (\<lambda>layer. id' layer = i) (layers s))"
      unfolding lay by (induction "layers s") simp_all
    have 4: "\<forall>k < length (layers s). distinct (ids s) \<longrightarrow> id' (layers s ! k) = i \<longrightarrow>
               layers (deleteSelectedLayer s) = take k (layers s) @ drop (Suc k) (layers s)"
      unfolding lay ids_def using filter_remove_nth [of id' "layers s"] by blast
    from 1 2 3 4 show ?thesis by blast
  qed
  from clear none some show ?thesis by blast
qed

theorem deleteSelectedLayer_removes_selected_witness:
  "selectedLayerId (selectLayer (Some 1)
       (addLayer (newLayer 2 ''b'' []) (addLayer (newLayer 1 ''a'' []) initial_state))) = Some 1
   \<and> (1::nat) < length (layers (selectLayer (Some 1)
       (addLayer (newLayer 2 ''b'' []) (addLayer (newLayer 1 ''a'' []) initial_state))))
   \<and> distinct (ids (selectLayer (Some 1)
       (addLayer (newLayer 2 ''b'' []) (addLayer (newLayer 1 ''a'' []) initial_state))))
   \<and> id' (layers (selectLayer (Some 1)
       (addLayer (newLayer 2 ''b'' []) (addLayer (newLayer 1 ''a'' []) initial_state))) ! 1) = 1
   \<and> ids (deleteSelectedLayer (selectLayer (Some 1)
       (addLayer (newLayer 2 ''b'' []) (addLayer (newLayer 1 ''a'' []) initial_state)))) = [2]
   \<and> selectedLayerId (deleteSelectedLayer (selectLayer (Some 1)
       (addLayer (newLayer 2 ''b'' []) (addLayer (newLayer 1 ''a'' []) initial_state)))) = None"
proof -
  let ?s = "selectLayer (Some 1)
       (addLayer (newLayer 2 ''b'' []) (addLayer (newLayer 1 ''a'' []) initial_state))"
  have sel: "selectedLayerId ?s = Some 1" by (simp add: selectLayer_def)
  have k: "(1::nat) < length (layers ?s)"
    by (simp add: selectLayer_def addLayer_def initial_state_def)
  have d: "distinct (ids ?s)"
    by (simp add: ids_def selectLayer_def addLayer_def newLayer_def initial_state_def)
  have at: "id' (layers ?s ! 1) = 1"
    by (simp add: selectLayer_def addLayer_def newLayer_def initial_state_def)
  from deleteSelectedLayer_removes_selected [of ?s] sel k d at
  have "layers (deleteSelectedLayer ?s) = take 1 (layers ?s) @ drop (Suc 1) (layers ?s)"
    and "selectedLayerId (deleteSelectedLayer ?s) = None"
    by blast+
  with sel k d at show ?thesis
    by (simp add: ids_def selectLayer_def addLayer_def newLayer_def initial_state_def)
qed

text \<open>
  C9. The layers after \<^verbatim>\<open>deleteSelectedLayer\<close> are a subsequence of the layers before it:
  whole layers, every field as it was, in the same relative order. Every layer whose id is
  not the selection occurs as often as before. The \<^verbatim>\<open>zIndex\<close> values are likewise a
  subsequence of the earlier ones: nothing is renumbered.
\<close>

theorem deleteSelectedLayer_keeps_survivors:
  "subseq (layers (deleteSelectedLayer s)) (layers s)
   \<and> (\<forall>layer. Some (id' layer) \<noteq> selectedLayerId s \<longrightarrow>
         count_list (layers (deleteSelectedLayer s)) layer = count_list (layers s) layer)
   \<and> subseq (zIndexes (deleteSelectedLayer s)) (zIndexes s)"
proof -
  have lay: "layers (deleteSelectedLayer s)
      = filter (\<lambda>layer. Some (id' layer) \<noteq> selectedLayerId s) (layers s)"
    by (simp add: deleteSelectedLayer_def)
  have a: "subseq (layers (deleteSelectedLayer s)) (layers s)"
    unfolding lay by (rule subseq_filter_left)
  have b: "\<forall>layer. Some (id' layer) \<noteq> selectedLayerId s \<longrightarrow>
         count_list (layers (deleteSelectedLayer s)) layer = count_list (layers s) layer"
    unfolding lay by (simp add: count_list_filter)
  have c: "subseq (zIndexes (deleteSelectedLayer s)) (zIndexes s)"
    unfolding zIndexes_def using a by (rule subseq_map)
  from a b c show ?thesis by blast
qed

theorem deleteSelectedLayer_keeps_survivors_witness:
  "Some (id' ((newLayer 2 ''b'' [])\<lparr>zIndex := 1\<rparr>))
     \<noteq> selectedLayerId (selectLayer (Some 1)
         (addLayer (newLayer 2 ''b'' []) (addLayer (newLayer 1 ''a'' []) initial_state)))
   \<and> count_list (layers (deleteSelectedLayer (selectLayer (Some 1)
         (addLayer (newLayer 2 ''b'' []) (addLayer (newLayer 1 ''a'' []) initial_state)))))
       ((newLayer 2 ''b'' [])\<lparr>zIndex := 1\<rparr>) = 1"
proof -
  let ?s = "selectLayer (Some 1)
       (addLayer (newLayer 2 ''b'' []) (addLayer (newLayer 1 ''a'' []) initial_state))"
  let ?l = "(newLayer 2 ''b'' [])\<lparr>zIndex := 1\<rparr>"
  have h: "Some (id' ?l) \<noteq> selectedLayerId ?s"
    by (simp add: selectLayer_def newLayer_def)
  have c: "count_list (layers ?s) ?l = 1"
    by (simp add: selectLayer_def addLayer_def newLayer_def initial_state_def)
  from deleteSelectedLayer_keeps_survivors [of ?s] h
  have "count_list (layers (deleteSelectedLayer ?s)) ?l = count_list (layers ?s) ?l"
    by blast
  with h c show ?thesis by simp
qed

subsection \<open>The typed store and the store at run time\<close>

text \<open>
  On an array of whole layers the operations at run time do what the typed operations do;
  where the typed \<^verbatim>\<open>reorderLayers\<close> returns \<open>MalformedLayer\<close>, the array at run time
  holds an object without an id afterwards.
\<close>

lemma splice_array_parts:
  "splice_array a d items xs =
     (take (min d (length xs - splice_start a (length xs))) (drop (splice_start a (length xs)) xs),
      take (splice_start a (length xs)) xs @ items
        @ drop (splice_start a (length xs) + min d (length xs - splice_start a (length xs))) xs)"
  by (simp add: splice_array_def Let_def)

lemma mset_splice_remove:
  assumes "splice_array a d [] xs = (removed, rest)"
  shows "mset removed + mset rest = mset xs"
proof -
  define k where "k = splice_start a (length xs)"
  define n where "n = min d (length xs - k)"
  from assms have removed: "removed = take n (drop k xs)"
    and rest: "rest = take k xs @ drop (k + n) xs"
    by (simp_all add: splice_array_parts k_def n_def)
  have "drop (k + n) xs = drop n (drop k xs)" by (simp add: add.commute)
  then have "mset removed + mset rest
      = mset (take k xs) + (mset (take n (drop k xs)) + mset (drop n (drop k xs)))"
    by (simp add: removed rest)
  also have "mset (take n (drop k xs)) + mset (drop n (drop k xs)) = mset (drop k xs)"
    by (simp only: mset_append [symmetric] append_take_drop_id)
  also have "mset (take k xs) + mset (drop k xs) = mset xs"
    by (simp only: mset_append [symmetric] append_take_drop_id)
  finally show ?thesis .
qed

lemma length_splice_removed:
  assumes "splice_array a d [] xs = (removed, rest)"
  shows "length removed \<le> d"
  using assms by (auto simp: splice_array_parts)

lemma mset_splice_insert:
  "mset (snd (splice_array b 0 items ys)) = mset items + mset ys"
proof -
  define k where "k = splice_start b (length ys)"
  have "snd (splice_array b 0 items ys) = take k ys @ items @ drop k ys"
    by (simp add: splice_array_parts k_def)
  then have "mset (snd (splice_array b 0 items ys))
      = mset items + (mset (take k ys) + mset (drop k ys))"
    by simp
  also have "mset (take k ys) + mset (drop k ys) = mset ys"
    by (simp only: mset_append [symmetric] append_take_drop_id)
  finally show ?thesis .
qed

lemma element_id_with_zIndex:
  "element_id (with_zIndex e n) = (case e of None \<Rightarrow> None | Some a \<Rightarrow> element_id a)"
  by (cases "(e, n)" rule: with_zIndex.cases) simp_all

lemma element_ids_renumbered:
  "map element_id (map (\<lambda>(index, layer). with_zIndex layer (f index)) (enumerate 0 ys))
     = map (case_option None element_id) ys"
  by (rule nth_equalityI) (simp_all add: nth_enumerate_eq element_id_with_zIndex)

lemma mset_ids_store_reorderLayers:
  "mset (element_ids (store_reorderLayers a b state))
     = (case fst (splice_array a 1 [] (elements state)) of
          [] \<Rightarrow> add_mset None (mset (element_ids state))
        | item # _ \<Rightarrow> mset (element_ids state))"
proof -
  obtain removed rest where sp: "splice_array a 1 [] (elements state) = (removed, rest)"
    by (cases "splice_array a 1 [] (elements state)")
  define reorderedItem where
    "reorderedItem = (case removed of [] \<Rightarrow> None | item # _ \<Rightarrow> Some item)"
  define moved where "moved = snd (splice_array b 0 [reorderedItem] (map Some rest))"
  have el: "elements (store_reorderLayers a b state)
      = map (\<lambda>(index, layer). with_zIndex layer (int (length moved) - 1 - int index))
          (enumerate 0 moved)"
    unfolding store_reorderLayers_def sp Let_def reorderedItem_def moved_def
    by (simp only: prod.case) simp
  have "mset (element_ids (store_reorderLayers a b state))
      = mset (map (case_option None element_id) moved)"
    by (simp only: element_ids_def el element_ids_renumbered)
  also have "\<dots> = image_mset (case_option None element_id) (mset moved)"
    by simp
  also have "mset moved = add_mset reorderedItem (mset (map Some rest))"
    by (simp add: moved_def mset_splice_insert)
  also have "image_mset (case_option None element_id) (add_mset reorderedItem (mset (map Some rest)))
      = add_mset (case_option None element_id reorderedItem) (mset (map element_id rest))"
    by (simp add: image_mset.compositionality comp_def)
  finally have res: "mset (element_ids (store_reorderLayers a b state))
      = add_mset (case_option None element_id reorderedItem) (mset (map element_id rest))" .
  from mset_splice_remove [OF sp]
  have "mset (map element_id removed) + mset (map element_id rest) = mset (element_ids state)"
    by (simp only: element_ids_def mset_map image_mset_union [symmetric])
  then have all: "mset (element_ids state)
      = mset (map element_id removed) + mset (map element_id rest)" by simp
  from length_splice_removed [OF sp] have short: "length removed \<le> 1" .
  have "mset (element_ids (store_reorderLayers a b state))
     = (case removed of
          [] \<Rightarrow> add_mset None (mset (element_ids state))
        | item # _ \<Rightarrow> mset (element_ids state))"
  proof (cases removed)
    case Nil
    then show ?thesis by (simp add: res all reorderedItem_def)
  next
    case (Cons item others)
    with short have "others = []" by simp
    with Cons show ?thesis by (simp add: res all reorderedItem_def)
  qed
  then show ?thesis by (simp only: sp fst_conv)
qed

lemma store_reorderLayers_keeps_ids:
  "Some i \<in> set (element_ids (store_reorderLayers a b state))
     \<longleftrightarrow> Some i \<in> set (element_ids state)"
proof -
  have "set_mset (mset (element_ids (store_reorderLayers a b state))) - {None}
      = set_mset (mset (element_ids state)) - {None}"
    unfolding mset_ids_store_reorderLayers by (simp split: list.split)
  then show ?thesis by auto
qed

lemma store_reorderLayers_selected:
  "selected (store_reorderLayers a b state) = selected state"
  by (simp add: store_reorderLayers_def Let_def split: prod.split)

lemma at_run_time_addLayer:
  "store_addLayer layer (at_run_time s) = at_run_time (addLayer layer s)"
  by (simp add: store_addLayer_def at_run_time_def addLayer_def)

lemma at_run_time_updateLayer:
  "store_updateLayer i p (at_run_time s) = at_run_time (updateLayer i p s)"
  by (simp add: store_updateLayer_def at_run_time_def updateLayer_def)

lemma at_run_time_selectLayer:
  "store_selectLayer i (at_run_time s) = at_run_time (selectLayer i s)"
  by (simp add: store_selectLayer_def at_run_time_def selectLayer_def)

lemma at_run_time_deleteSelectedLayer:
  "store_deleteSelectedLayer (at_run_time s) = at_run_time (deleteSelectedLayer s)"
  by (simp add: store_deleteSelectedLayer_def at_run_time_def deleteSelectedLayer_def
      filter_map comp_def)

lemma splice_array_map:
  "splice_array a d (map f items) (map f xs)
     = (map f (fst (splice_array a d items xs)), map f (snd (splice_array a d items xs)))"
  by (simp add: splice_array_parts take_map drop_map)

lemma renumber_at_run_time:
  "map (\<lambda>(index, layer). with_zIndex layer (int (length (map (Some \<circ> Whole) ys)) - 1 - int index))
       (enumerate 0 (map (Some \<circ> Whole) ys))
     = map Whole (renumber ys)"
  by (rule nth_equalityI) (simp_all add: length_renumber nth_renumber nth_enumerate_eq)

lemma reorderLayers_cases:
  assumes "splice_array a 1 [] (layers s) = (removed, rest)"
  shows "reorderLayers a b s =
    (case removed of
       [] \<Rightarrow> Inl MalformedLayer
     | item # _ \<Rightarrow> Inr (s\<lparr>layers := renumber (snd (splice_array b 0 [item] rest))\<rparr>))"
  by (simp only: reorderLayers_def assms prod.case)

lemma at_run_time_reorderLayers:
  assumes "reorderLayers a b s = Inr s'"
  shows "store_reorderLayers a b (at_run_time s) = at_run_time s'"
proof -
  obtain removed rest where sp: "splice_array a 1 [] (layers s) = (removed, rest)"
    by (cases "splice_array a 1 [] (layers s)")
  note cases = reorderLayers_cases [OF sp, of b]
  with assms obtain item others where removed: "removed = item # others"
    by (cases removed) simp_all
  define moved where "moved = snd (splice_array b 0 [item] rest)"
  from assms cases have s': "s' = s\<lparr>layers := renumber moved\<rparr>"
    by (simp add: removed moved_def)
  have "splice_array a 1 (map Whole []) (map Whole (layers s))
      = (map Whole removed, map Whole rest)"
    by (simp only: splice_array_map sp fst_conv snd_conv)
  then have sp': "splice_array a 1 [] (elements (at_run_time s))
      = (Whole item # map Whole others, map Whole rest)"
    by (simp add: at_run_time_def removed)
  have "snd (splice_array b 0 (map (Some \<circ> Whole) [item]) (map (Some \<circ> Whole) rest))
      = map (Some \<circ> Whole) moved"
    by (simp only: splice_array_map snd_conv moved_def)
  then have ins: "snd (splice_array b 0 [Some (Whole item)] (map Some (map Whole rest)))
      = map (Some \<circ> Whole) moved"
    by simp
  have "elements (store_reorderLayers a b (at_run_time s)) = map Whole (renumber moved)"
    unfolding store_reorderLayers_def sp' Let_def
    by (simp only: prod.case list.case ins renumber_at_run_time) simp
  moreover have "selected (store_reorderLayers a b (at_run_time s)) = selectedLayerId s"
    by (simp add: store_reorderLayers_selected at_run_time_def)
  ultimately show ?thesis
    by (simp add: at_run_time_def s')
qed

lemma at_run_time_malformed:
  assumes "reorderLayers a b s = Inl e"
  shows "None \<in> set (element_ids (store_reorderLayers a b (at_run_time s)))"
proof -
  obtain removed rest where sp: "splice_array a 1 [] (layers s) = (removed, rest)"
    by (cases "splice_array a 1 [] (layers s)")
  from assms reorderLayers_cases [OF sp, of b] have "removed = []"
    by (cases removed) simp_all
  with sp have "splice_array a 1 (map Whole []) (map Whole (layers s))
      = (map Whole [], map Whole rest)"
    by (simp only: splice_array_map fst_conv snd_conv)
  then have "fst (splice_array a 1 [] (elements (at_run_time s))) = []"
    by (simp add: at_run_time_def)
  then have "mset (element_ids (store_reorderLayers a b (at_run_time s)))
      = add_mset None (mset (element_ids (at_run_time s)))"
    by (simp only: mset_ids_store_reorderLayers list.case)
  then have "None \<in># mset (element_ids (store_reorderLayers a b (at_run_time s)))"
    by simp
  then show ?thesis by simp
qed

lemmas run_defs = store_addLayer_def store_updateLayer_def store_selectLayer_def
  store_deleteSelectedLayer_def store_reorderLayers_def splice_array_def splice_start_def
  enumerate_eq_zip newLayer_def initial_store_def element_ids_def element_zIndexes_def
  spread_def assign_def upt_rec

subsection \<open>The zIndex values after a delete\<close>

text \<open>
  C1. Pairwise distinct \<^verbatim>\<open>zIndex\<close> values are what \<^verbatim>\<open>addLayer\<close> and
  \<^verbatim>\<open>reorderLayers\<close> aim at: the one gives the new layer the number of layers, the other
  renumbers all of them. \<^verbatim>\<open>deleteSelectedLayer\<close> renumbers nothing, and the store
  loses the property in this run from the empty store: two layers are added, with
  \<^verbatim>\<open>zIndex\<close> 1 and 0; the older one is selected and deleted, which leaves one layer
  with \<^verbatim>\<open>zIndex\<close> 1; a third layer is added and is given the number of layers, 1. The
  run ends with the layers 3 and 2, both with \<^verbatim>\<open>zIndex\<close> 1.
\<close>

theorem addLayer_after_delete_repeats_zIndex:
  "element_zIndexes
     (run [AddLayer (newLayer 1 ''a'' []), AddLayer (newLayer 2 ''b'' [])] initial_store)
     = [1, 0]
   \<and> element_zIndexes
     (run [AddLayer (newLayer 1 ''a'' []), AddLayer (newLayer 2 ''b'' []),
           SelectLayer (Some 1), DeleteSelectedLayer] initial_store) = [1]
   \<and> element_zIndexes
     (run [AddLayer (newLayer 1 ''a'' []), AddLayer (newLayer 2 ''b'' []),
           SelectLayer (Some 1), DeleteSelectedLayer,
           AddLayer (newLayer 3 ''c'' [])] initial_store) = [1, 1]
   \<and> element_ids
     (run [AddLayer (newLayer 1 ''a'' []), AddLayer (newLayer 2 ''b'' []),
           SelectLayer (Some 1), DeleteSelectedLayer,
           AddLayer (newLayer 3 ''c'' [])] initial_store) = [Some 3, Some 2]
   \<and> \<not> distinct (element_zIndexes
     (run [AddLayer (newLayer 1 ''a'' []), AddLayer (newLayer 2 ''b'' []),
           SelectLayer (Some 1), DeleteSelectedLayer,
           AddLayer (newLayer 3 ''c'' [])] initial_store))"
  by (simp add: run_defs)

subsection \<open>The selection along a run\<close>

lemma element_ids_store_updateLayer:
  assumes "p_id p = None"
  shows "element_ids (store_updateLayer i p state) = element_ids state"
proof -
  have "element_id (update_element i p e) = element_id e" for e
    using assms by (cases e) (simp_all add: spread_id)
  then show ?thesis by (simp add: element_ids_def store_updateLayer_def)
qed

lemma step_selection_present:
  assumes "selects_present c state" and "selection_present state"
  shows "selection_present (step c state)"
proof (cases c)
  case (AddLayer layer)
  with assms(2) show ?thesis
    by (auto simp: selection_present_def element_ids_def store_addLayer_def
        split: option.splits)
next
  case (UpdateLayer i p)
  with assms(1) have "p_id p = None" by simp
  then have "element_ids (step c state) = element_ids state"
    by (simp add: UpdateLayer element_ids_store_updateLayer)
  moreover have "selected (step c state) = selected state"
    by (simp add: UpdateLayer store_updateLayer_def)
  ultimately show ?thesis
    using assms(2) by (simp add: selection_present_def split: option.splits)
next
  case (SelectLayer i)
  with assms(1) show ?thesis
    by (cases i) (simp_all add: selection_present_def element_ids_def store_selectLayer_def)
next
  case (ReorderLayers a b)
  with assms(2) show ?thesis
    by (simp add: selection_present_def store_reorderLayers_keeps_ids
        store_reorderLayers_selected split: option.splits)
next
  case DeleteSelectedLayer
  then show ?thesis
    by (simp add: selection_present_def store_deleteSelectedLayer_def)
qed

lemma run_selection_present:
  assumes "all_select_present cs state" and "selection_present state"
  shows "selection_present (run cs state)"
  using assms
proof (induction cs arbitrary: state)
  case Nil
  then show ?case by simp
next
  case (Cons c cs)
  from Cons.prems have "selects_present c state" and rest: "all_select_present cs (step c state)"
    by simp_all
  from this(1) Cons.prems(2) have "selection_present (step c state)"
    by (rule step_selection_present)
  with rest have "selection_present (run cs (step c state))" by (rule Cons.IH)
  then show ?case by simp
qed

text \<open>
  Two runs from the empty store that leave a selected id no layer has:
  \<^verbatim>\<open>selectLayer(42)\<close> on the empty store, and an \<^verbatim>\<open>updateLayer\<close> whose patch gives
  the selected layer another id.
\<close>

theorem selection_present_counterexample:
  "\<not> selection_present (run [SelectLayer (Some 42)] initial_store)
   \<and> \<not> selection_present
       (run [AddLayer (newLayer 1 ''a'' []), SelectLayer (Some 1),
             UpdateLayer 1 \<lparr>p_id = Some 5, p_type = None, p_src = None, p_name = None,
               p_width = None, p_height = None, p_x = None, p_y = None, p_zIndex = None,
               p_content = None\<rparr>] initial_store)"
  by (simp add: run_defs selection_present_def)

text \<open>
  C6, amended. Take any sequence of the five operations, run from the empty store, in
  which every \<^verbatim>\<open>selectLayer\<close> is given \<^verbatim>\<open>null\<close> or the id of a layer present at that
  moment and no \<^verbatim>\<open>updateLayer\<close> patch names \<^verbatim>\<open>id\<close>. Then in the state the run ends
  in, the selection is \<^verbatim>\<open>null\<close> or the id of a layer in the array. The indices given to
  \<^verbatim>\<open>reorderLayers\<close> are arbitrary: a call that stores an object without an id is part
  of the runs covered.
\<close>

theorem selection_present_reachable:
  assumes "all_select_present cs initial_store"
  shows "selection_present (run cs initial_store)"
proof -
  have "selection_present initial_store"
    by (simp add: selection_present_def initial_store_def)
  with assms show ?thesis by (rule run_selection_present)
qed

theorem selection_present_reachable_witness:
  "all_select_present
     [AddLayer (newLayer 1 ''a'' []), SelectLayer (Some 1), ReorderLayers 5 0,
      AddLayer (newLayer 2 ''b'' []), ReorderLayers 2 0] initial_store
   \<and> selection_present
       (run [AddLayer (newLayer 1 ''a'' []), SelectLayer (Some 1), ReorderLayers 5 0,
             AddLayer (newLayer 2 ''b'' []), ReorderLayers 2 0] initial_store)
   \<and> selected
       (run [AddLayer (newLayer 1 ''a'' []), SelectLayer (Some 1), ReorderLayers 5 0,
             AddLayer (newLayer 2 ''b'' []), ReorderLayers 2 0] initial_store) = Some 1
   \<and> element_ids
       (run [AddLayer (newLayer 1 ''a'' []), SelectLayer (Some 1), ReorderLayers 5 0,
             AddLayer (newLayer 2 ''b'' []), ReorderLayers 2 0] initial_store)
       = [Some 1, Some 2, None]"
proof -
  let ?cs = "[AddLayer (newLayer 1 ''a'' []), SelectLayer (Some 1), ReorderLayers 5 0,
      AddLayer (newLayer 2 ''b'' []), ReorderLayers 2 0]"
  have h: "all_select_present ?cs initial_store" by (simp add: run_defs)
  have s: "selected (run ?cs initial_store) = Some 1"
    and i: "element_ids (run ?cs initial_store) = [Some 1, Some 2, None]"
    by (simp_all add: run_defs)
  from selection_present_reachable [OF h] h s i show ?thesis by blast
qed

section \<open>Properties of the generation relay\<close>

text \<open>
  Three requests the handler answers otherwise than by the key alone. With no key and a
  body that is not JSON, or that is \<^verbatim>\<open>null\<close>, the handler rejects before it looks at
  the key, so no \<^verbatim>\<open>API key not found\<close> is sent. With the key set to the empty string,
  the handler answers \<^verbatim>\<open>API key not found\<close> and calls nobody.
\<close>

theorem POST_key_check_counterexample:
  "POST None (Inl SyntaxError) (Inr \<circ> body) = ([], Inl SyntaxError)
   \<and> POST None (Inr JNull) (Inr \<circ> body) = ([], Inl TypeError)
   \<and> POST (Some '''')
        (Inr (JObject [(''prompt'', JString ''a cat''), (''size'', JString ''square_hd'')]))
        (Inr \<circ> body) = ([], Inr key_not_found)"
  by (simp add: POST_def)

text \<open>
  C8, amended. Let the body of the request be JSON other than \<^verbatim>\<open>null\<close>, so that
  \<^verbatim>\<open>prompt\<close> and \<^verbatim>\<open>size\<close> can be read from it. When the key is missing or the empty
  string, the handler answers \<^verbatim>\<open>{ error: "API key not found" }\<close> with status 500 and
  makes no outbound call. When the key is a non-empty string, it makes exactly one
  outbound call: a POST to the provider, authorised with the key, whose body holds the
  prompt as \<^verbatim>\<open>prompt\<close> and the size as \<^verbatim>\<open>image_size\<close>, each left out when the
  request has none.
\<close>

theorem POST_key_check:
  assumes "property v ''prompt'' = Inr prompt" and "property v ''size'' = Inr size'"
  shows "(apiKey = None \<or> apiKey = Some [] \<longrightarrow>
            POST apiKey (Inr v) provider = ([], Inr key_not_found))
   \<and> status key_not_found = 500
   \<and> payload key_not_found = JObject [(''error'', JString ''API key not found'')]
   \<and> (\<forall>k. apiKey = Some k \<longrightarrow> k \<noteq> [] \<longrightarrow>
         fst (POST apiKey (Inr v) provider) =
           [\<lparr>url = ''https://fal.run/fal-ai/fast-lightning-sdxl'', method' = ''POST'',
             headers = [(''Content-Type'', ''application/json''),
                        (''Authorization'', ''Key '' @ k)],
             body = JObject (stringify_member ''prompt'' prompt
                             @ stringify_member ''image_size'' size')\<rparr>]
         \<and> length (fst (POST apiKey (Inr v) provider)) = 1)"
proof -
  have absent: "apiKey = None \<or> apiKey = Some [] \<longrightarrow>
      POST apiKey (Inr v) provider = ([], Inr key_not_found)"
    using assms by (auto simp: POST_def)
  have answer: "status key_not_found = 500"
    "payload key_not_found = JObject [(''error'', JString ''API key not found'')]"
    by (simp_all add: key_not_found_def)
  have present: "fst (POST apiKey (Inr v) provider) =
           [\<lparr>url = ''https://fal.run/fal-ai/fast-lightning-sdxl'', method' = ''POST'',
             headers = [(''Content-Type'', ''application/json''),
                        (''Authorization'', ''Key '' @ k)],
             body = JObject (stringify_member ''prompt'' prompt
                             @ stringify_member ''image_size'' size')\<rparr>]
         \<and> length (fst (POST apiKey (Inr v) provider)) = 1"
    if "apiKey = Some k" and "k \<noteq> []" for k
    using assms that by (simp add: POST_def Let_def)
  from absent answer present show ?thesis by blast
qed

theorem POST_key_check_witness:
  "property (JObject [(''prompt'', JString ''a cat''), (''size'', JString ''square_hd'')])
       ''prompt'' = Inr (Some (JString ''a cat''))
   \<and> property (JObject [(''prompt'', JString ''a cat''), (''size'', JString ''square_hd'')])
       ''size'' = Inr (Some (JString ''square_hd''))
   \<and> POST None
        (Inr (JObject [(''prompt'', JString ''a cat''), (''size'', JString ''square_hd'')]))
        (Inr \<circ> body) = ([], Inr key_not_found)
   \<and> map body (fst (POST (Some ''secret'')
        (Inr (JObject [(''prompt'', JString ''a cat''), (''size'', JString ''square_hd'')]))
        (Inr \<circ> body)))
      = [JObject [(''prompt'', JString ''a cat''), (''image_size'', JString ''square_hd'')]]"
proof -
  let ?v = "JObject [(''prompt'', JString ''a cat''), (''size'', JString ''square_hd'')]"
  have p: "property ?v ''prompt'' = Inr (Some (JString ''a cat''))"
    and s: "property ?v ''size'' = Inr (Some (JString ''square_hd''))"
    by simp_all
  from POST_key_check [OF p s, of None "Inr \<circ> body"]
  have a: "POST None (Inr ?v) (Inr \<circ> body) = ([], Inr key_not_found)" by simp
  from POST_key_check [OF p s, of "Some ''secret''" "Inr \<circ> body"]
  have b: "map body (fst (POST (Some ''secret'') (Inr ?v) (Inr \<circ> body)))
      = [JObject [(''prompt'', JString ''a cat''), (''image_size'', JString ''square_hd'')]]"
    by simp
  from p s a b show ?thesis by blast
qed

end
